theory Spec2Isabelle
  imports Main "HOL-Library.Word"
begin

unbundle bit_operations_syntax

section \<open>The SPI flash programming scripts\<close>

text \<open>
  The development embeds \<^verbatim>\<open>python/spi_flash_read.py\<close> and
  \<^verbatim>\<open>python/spi_flash_write.py\<close>. Both scripts drive an SPI NOR flash through an
  object \<^verbatim>\<open>spi\<close> with two methods, \<^verbatim>\<open>configure\<close> and \<^verbatim>\<open>transfer\<close>. The
  library behind that object is not part of the scripts, so it is a parameter of the model: a
  deterministic machine over a device state \<open>'d\<close>.

  Python integers are \<open>int\<close>, a \<^verbatim>\<open>bytes\<close> object is a list of 8-bit words, a command
  (a Python list of integers) is an \<open>int list\<close>, and \<^verbatim>\<open>None\<close> is \<open>None\<close>.
  Console output and the progress bar have no influence on the transfers and are left out.
  The clock is read for messages only, with one exception: the reader divides by the time
  the run took, so its two clock readings are parameters of the model.
\<close>

subsection \<open>Transport, events and the session state\<close>

type_synonym byte = "8 word"

text \<open>
  \<open>configure\<close> receives the clock speed (the other options are constants of the scripts) and
  answers with a truth value. \<open>transfer\<close> receives \<^verbatim>\<open>write_data\<close> and the keyword
  argument \<^verbatim>\<open>read_bytes\<close>, which is \<open>None\<close> where the script does not pass it, and
  answers with the bytes read or with \<^verbatim>\<open>None\<close>.
\<close>

record 'd transport =
  configure :: "int \<Rightarrow> 'd \<Rightarrow> bool \<times> 'd"
  transfer :: "int list \<Rightarrow> int option \<Rightarrow> 'd \<Rightarrow> byte list option \<times> 'd"

text \<open>Every call on the \<^verbatim>\<open>spi\<close> object is recorded, with its answer, in call order.\<close>

datatype event =
    Configure int bool
  | Transfer "int list" "int option" "byte list option"

text \<open>
  The state threaded through a script: the device, the calls made so far, and the content of
  the output file of the reader.
\<close>

record 'd io =
  dev :: 'd
  log :: "event list"
  sink :: "byte list"

definition BPIOSPI :: "'d \<Rightarrow> 'd io" where
  "BPIOSPI client = \<lparr>dev = client, log = [], sink = []\<rparr>"

definition spi_configure :: "'d transport \<Rightarrow> int \<Rightarrow> 'd io \<Rightarrow> bool \<times> 'd io" where
  "spi_configure T speed s =
     (case configure T speed (dev s) of
        (ok, d') \<Rightarrow> (ok, s\<lparr>dev := d', log := log s @ [Configure speed ok]\<rparr>))"

definition spi_transfer ::
  "'d transport \<Rightarrow> int list \<Rightarrow> int option \<Rightarrow> 'd io \<Rightarrow> byte list option \<times> 'd io" where
  "spi_transfer T write_data read_bytes s =
     (case transfer T write_data read_bytes (dev s) of
        (r, d') \<Rightarrow> (r, s\<lparr>dev := d', log := log s @ [Transfer write_data read_bytes r]\<rparr>))"

text \<open>Python's truth value of a transfer result: \<^verbatim>\<open>None\<close> and \<^verbatim>\<open>b''\<close> are false.\<close>

fun truthy :: "byte list option \<Rightarrow> bool" where
  "truthy None = False"
| "truthy (Some bs) = (bs \<noteq> [])"

subsection \<open>Commands\<close>

text \<open>
  The command lists built in the scripts: the read command (reader line 37, writer line 103),
  the page program command (writer lines 66-67), and the three one-byte commands of the
  writer (lines 23, 26, 30, 63, 72).
\<close>

definition read_cmd :: "int \<Rightarrow> int list" where
  "read_cmd address =
     [0x03, (drop_bit 16 address) AND 0xFF, (drop_bit 8 address) AND 0xFF, address AND 0xFF]"

definition page_program_cmd :: "int \<Rightarrow> byte list \<Rightarrow> int list" where
  "page_program_cmd address page_data =
     [0x02, (drop_bit 16 address) AND 0xFF, (drop_bit 8 address) AND 0xFF, address AND 0xFF]
       @ map uint page_data"

definition write_enable_cmd :: "int list" where
  "write_enable_cmd = [0x06]"

definition chip_erase_cmd :: "int list" where
  "chip_erase_cmd = [0xC7]"

definition read_status_cmd :: "int list" where
  "read_status_cmd = [0x05]"

subsection \<open>Outcomes\<close>

text \<open>
  The scripts return \<^verbatim>\<open>True\<close> (here \<open>Success\<close>) or \<^verbatim>\<open>False\<close>; every
  \<^verbatim>\<open>return False\<close> but one follows a diagnostic of its own, and the outcome records
  which one it was:
  \<^item> \<open>FileNotFound\<close>: the input file does not exist (writer line 124);
  \<^item> \<open>SizeExceeded\<close>: the file size exceeds the flash capacity (writer line 130);
  \<^item> \<open>ConfigurationFailed\<close>: \<^verbatim>\<open>Failed to configure SPI interface\<close> (reader line 62,
    writer line 147);
  \<^item> \<open>EraseFailed\<close>: the silent \<^verbatim>\<open>return False\<close> after \<^verbatim>\<open>erase_flash\<close>
    (writer line 143);
  \<^item> \<open>TransportError a\<close>: \<^verbatim>\<open>Failed to read at address a\<close> (reader line 51);
  \<^item> \<open>VerificationMismatch a\<close>: \<^verbatim>\<open>Verification failed at address a\<close> (writer line 107).

  \<open>ZeroDivisionError\<close> is not a return value: it is the exception that leaves
  \<^verbatim>\<open>read_spi_flash\<close> when \<^verbatim>\<open>flash_size // chunk_size\<close> (reader line 33) or the
  average speed \<^verbatim>\<open>(address / (1024 * 1024)) / total_time\<close> (reader line 56) divides by
  zero.
\<close>

datatype outcome =
    Success
  | FileNotFound
  | SizeExceeded
  | ConfigurationFailed
  | EraseFailed
  | TransportError int
  | VerificationMismatch int
  | ZeroDivisionError

subsection \<open>The busy wait\<close>

text \<open>
  The \<^verbatim>\<open>while True\<close> loops of \<^verbatim>\<open>erase_flash\<close> (lines 29-37) and of
  \<^verbatim>\<open>write_flash\<close> (lines 71-76) differ in the sleep interval and in a message only, so
  one function stands for both. The loops have no bound. The first argument is fuel: the
  number of status polls the run is observed for. The result \<open>None\<close> says that the loop is
  still polling after that many polls; the state holds the calls made up to then.
\<close>

fun wait_ready :: "nat \<Rightarrow> 'd transport \<Rightarrow> 'd io \<Rightarrow> unit option \<times> 'd io" where
  "wait_ready 0 T s = (None, s)"
| "wait_ready (Suc n) T s =
     (case spi_transfer T read_status_cmd (Some 1) s of
        (status_data, s') \<Rightarrow>
          if truthy status_data \<and> length (the status_data) = 1
             \<and> (uint (the status_data ! 0)) AND 0x01 = 0
          then (Some (), s')
          else wait_ready n T s')"

subsection \<open>Erasing\<close>

text \<open>
  \<^verbatim>\<open>erase_flash\<close>, and \<^verbatim>\<open>write_flash\<close> below, hand the fuel to each of their busy
  waits; a run in which a wait is still polling when the fuel is used up has the result
  \<open>None\<close>.
\<close>

fun erase_flash :: "nat \<Rightarrow> 'd transport \<Rightarrow> 'd io \<Rightarrow> bool option \<times> 'd io" where
  "erase_flash n T s =
     (case spi_transfer T write_enable_cmd None s of
        (_, s1) \<Rightarrow>
          (case spi_transfer T chip_erase_cmd None s1 of
             (_, s2) \<Rightarrow>
               (case wait_ready n T s2 of
                  (None, s3) \<Rightarrow> (None, s3)
                | (Some _, s3) \<Rightarrow> (Some True, s3))))"

subsection \<open>Writing and verifying\<close>

text \<open>
  The page loop of \<^verbatim>\<open>write_flash\<close> (lines 56-83). \<open>f\<close> is the unread rest of the input
  file, so \<^verbatim>\<open>f.read(page_size)\<close> is \<open>take 256 f\<close> and leaves \<open>drop 256 f\<close>.
\<close>

function write_pages ::
  "nat \<Rightarrow> 'd transport \<Rightarrow> int \<Rightarrow> byte list \<Rightarrow> int \<Rightarrow> 'd io \<Rightarrow> unit option \<times> 'd io" where
  "write_pages n T file_size f address s =
     (if address < file_size then
        (let page_data = take 256 f in
         if page_data = [] then (Some (), s)
         else
           (case spi_transfer T write_enable_cmd None s of
              (_, s1) \<Rightarrow>
                (case spi_transfer T (page_program_cmd address page_data) None s1 of
                   (_, s2) \<Rightarrow>
                     (case wait_ready n T s2 of
                        (None, s3) \<Rightarrow> (None, s3)
                      | (Some _, s3) \<Rightarrow>
                          write_pages n T file_size (drop 256 f)
                            (address + int (length page_data)) s3))))
      else (Some (), s))"
  by pat_completeness auto
termination
  by (relation "measure (\<lambda>(n, T, file_size, f, address, s). length f)") auto

text \<open>The verification loop of \<^verbatim>\<open>write_flash\<close> (lines 97-114).\<close>

function verify_chunks ::
  "'d transport \<Rightarrow> int \<Rightarrow> byte list \<Rightarrow> int \<Rightarrow> 'd io \<Rightarrow> outcome \<times> 'd io" where
  "verify_chunks T file_size f address s =
     (if address < file_size then
        (let expected_data = take 512 f in
         if expected_data = [] then (Success, s)
         else
           (case spi_transfer T (read_cmd address) (Some (int (length expected_data))) s of
              (actual_data, s1) \<Rightarrow>
                if actual_data \<noteq> Some expected_data then (VerificationMismatch address, s1)
                else verify_chunks T file_size (drop 512 f)
                       (address + int (length expected_data)) s1))
      else (Success, s))"
  by pat_completeness auto
termination
  by (relation "measure (\<lambda>(T, file_size, f, address, s). length f)") auto

text \<open>
  \<^verbatim>\<open>write_flash\<close>: the file is a byte list, \<^verbatim>\<open>os.path.getsize\<close> is its length, and
  each \<^verbatim>\<open>open\<close> starts reading at its first byte.
\<close>

fun write_flash ::
  "nat \<Rightarrow> 'd transport \<Rightarrow> byte list \<Rightarrow> bool \<Rightarrow> 'd io \<Rightarrow> outcome option \<times> 'd io" where
  "write_flash n T file verify s =
     (let file_size = int (length file) in
      case write_pages n T file_size file 0 s of
        (None, s1) \<Rightarrow> (None, s1)
      | (Some _, s1) \<Rightarrow>
          if verify then
            (case verify_chunks T file_size file 0 s1 of (r, s2) \<Rightarrow> (Some r, s2))
          else (Some Success, s1))"

text \<open>
  \<^verbatim>\<open>write_spi_flash\<close>: the input file is \<open>None\<close> when it does not exist. The session
  object is created after the two checks on the file.
\<close>

fun write_spi_flash ::
  "nat \<Rightarrow> 'd transport \<Rightarrow> 'd \<Rightarrow> byte list option \<Rightarrow> int \<Rightarrow> int \<Rightarrow> bool \<Rightarrow> bool
     \<Rightarrow> outcome option \<times> 'd io" where
  "write_spi_flash n T client None flash_size speed erase_chip verify =
     (Some FileNotFound, BPIOSPI client)"
| "write_spi_flash n T client (Some file) flash_size speed erase_chip verify =
     (let file_size = int (length file) in
      if file_size > flash_size then (Some SizeExceeded, BPIOSPI client)
      else
        (case spi_configure T speed (BPIOSPI client) of
           (ok, s1) \<Rightarrow>
             if ok then
               (if erase_chip then
                  (case erase_flash n T s1 of
                     (None, s2) \<Rightarrow> (None, s2)
                   | (Some erased, s2) \<Rightarrow>
                       if \<not> erased then (Some EraseFailed, s2)
                       else write_flash n T file verify s2)
                else write_flash n T file verify s1)
             else (Some ConfigurationFailed, s1)))"

subsection \<open>Reading\<close>

text \<open>The chunk loop of \<^verbatim>\<open>read_spi_flash\<close> (lines 35-52).\<close>

function read_chunks ::
  "'d transport \<Rightarrow> int \<Rightarrow> int \<Rightarrow> int \<Rightarrow> 'd io \<Rightarrow> outcome \<times> 'd io" where
  "read_chunks T flash_size chunk_size address s =
     (if address < flash_size then
        (case spi_transfer T (read_cmd address) (Some chunk_size) s of
           (data, s1) \<Rightarrow>
             if truthy data \<and> int (length (the data)) = chunk_size
             then read_chunks T flash_size chunk_size (address + chunk_size)
                    (s1\<lparr>sink := sink s1 @ the data\<rparr>)
             else (TransportError address, s1))
      else (Success, s))"
  by pat_completeness auto
termination
proof (relation "measure (\<lambda>(T, flash_size, chunk_size, address, s). nat (flash_size - address))",
    goal_cases)
  case 1
  show ?case by simp
next
  case (2 T flash_size chunk_size address s data s1)
  then show ?case by (cases data) auto
qed

text \<open>
  \<^verbatim>\<open>read_spi_flash\<close>: opening the output file for writing empties it. The number of
  chunks computed before the loop (line 33) is used for the progress bar only, but the
  division raises when the chunk size is 0. \<open>start_time\<close> and \<open>end_time\<close> are the readings
  of \<^verbatim>\<open>time.time()\<close> at lines 32 and 54, in ticks of the clock; after the loop the
  script divides by their difference (line 56), which raises when the two readings are
  equal. A failed read returns before that.
\<close>

fun read_spi_flash ::
  "'d transport \<Rightarrow> 'd \<Rightarrow> int \<Rightarrow> int \<Rightarrow> int \<Rightarrow> int \<Rightarrow> int \<Rightarrow> outcome \<times> 'd io" where
  "read_spi_flash T client flash_size speed chunk_size start_time end_time =
     (case spi_configure T speed (BPIOSPI client) of
        (ok, s1) \<Rightarrow>
          if ok then
            (let s2 = s1\<lparr>sink := []\<rparr> in
             if chunk_size = 0 then (ZeroDivisionError, s2)
             else
               (case read_chunks T flash_size chunk_size 0 s2 of
                  (r, s3) \<Rightarrow>
                    if r = Success then
                      (let total_time = end_time - start_time in
                       if total_time = 0 then (ZeroDivisionError, s3) else (Success, s3))
                    else (r, s3)))
          else (ConfigurationFailed, s1))"

subsection \<open>Reading the log\<close>

fun is_transfer :: "event \<Rightarrow> bool" where
  "is_transfer (Transfer w n r) = True"
| "is_transfer (Configure speed ok) = False"


fun response :: "event \<Rightarrow> byte list option" where
  "response (Transfer w n r) = r"
| "response (Configure speed ok) = None"

text \<open>
  An answer to a status read ends the busy wait when it is a single byte whose bit 0, the
  write-in-progress bit, is clear.
\<close>

fun wip_clear :: "byte list option \<Rightarrow> bool" where
  "wip_clear (Some [b]) = (\<not> bit b 0)"
| "wip_clear _ = False"

fun is_status_poll :: "event \<Rightarrow> bool" where
  "is_status_poll (Transfer w n r) = (w = read_status_cmd \<and> n = Some 1)"
| "is_status_poll (Configure speed ok) = False"

definition busy_poll :: "event \<Rightarrow> bool" where
  "busy_poll e = (is_status_poll e \<and> \<not> wip_clear (response e))"

text \<open>A completed busy wait: status polls, of which the last one, and only the last one, is
  answered with the write-in-progress bit clear.\<close>

fun waits_until_clear :: "event list \<Rightarrow> bool" where
  "waits_until_clear [] = False"
| "waits_until_clear (e # es) =
     (is_status_poll e \<and> (if wip_clear (response e) then es = [] else waits_until_clear es))"






text \<open>
  Verification reads in sequence over the rest \<open>f\<close> of the file: each one asks for as many
  bytes as the next chunk of up to 512 bytes of the file has, and the next one starts that
  many bytes further.
\<close>

fun verify_events :: "int \<Rightarrow> byte list \<Rightarrow> byte list option list \<Rightarrow> event list" where
  "verify_events address f [] = []"
| "verify_events address f (r # rs) =
     Transfer (read_cmd address) (Some (int (length (take 512 f)))) r
       # verify_events (address + int (length (take 512 f))) (drop 512 f) rs"




subsection \<open>Transports used as concrete inputs\<close>

text \<open>A device that accepts the configuration and answers every transfer with as many zero
  bytes as were asked for.\<close>

definition blank_flash :: "unit transport" where
  "blank_flash =
     \<lparr>configure = (\<lambda>speed d. (True, d)),
      transfer = (\<lambda>w n d. (Some (replicate (nat (case n of None \<Rightarrow> 0 | Some k \<Rightarrow> k)) 0), d))\<rparr>"

text \<open>A device that refuses the configuration.\<close>

definition refusing_port :: "unit transport" where
  "refusing_port = blank_flash\<lparr>configure := (\<lambda>speed d. (False, d))\<rparr>"

text \<open>A device that accepts the configuration and replays a script of answers, one for each
  transfer, and \<^verbatim>\<open>None\<close> when the script is used up.\<close>

definition scripted :: "byte list option list transport" where
  "scripted =
     \<lparr>configure = (\<lambda>speed d. (True, d)),
      transfer = (\<lambda>w n d. (case d of [] \<Rightarrow> (None, []) | r # rs \<Rightarrow> (r, rs)))\<rparr>"

text \<open>The equations of the three loops are unfolded by hand in the proofs.\<close>

declare read_chunks.simps [simp del] write_pages.simps [simp del] verify_chunks.simps [simp del]

section \<open>Properties\<close>

subsection \<open>Command bytes\<close>

lemma and_255: "(x::int) AND 0xFF = x mod 256"
proof -
  have "x AND mask 8 = take_bit 8 x"
    by (simp add: take_bit_eq_mask)
  then show ?thesis
    by (simp add: take_bit_eq_mod mask_eq_exp_minus_1)
qed

lemma address_bytes:
  "[(drop_bit 16 a) AND 0xFF, (drop_bit 8 a) AND 0xFF, a AND 0xFF]
     = [a div 65536 mod 256, a div 256 mod 256, (a::int) mod 256]"
  by (simp add: and_255 drop_bit_eq_div)

lemma low_two_bytes: "(a::int) mod 65536 = 256 * (a div 256 mod 256) + a mod 256"
proof -
  have "a mod (256 * 256) = 256 * (a div 256 mod 256) + a mod 256"
    by (rule zmod_zmult2_eq) simp
  then show ?thesis by simp
qed

lemma low_three_bytes: "(a::int) mod 16777216 = 65536 * (a div 65536 mod 256) + a mod 65536"
proof -
  have "a mod (65536 * 256) = 65536 * (a div 65536 mod 256) + a mod 65536"
    by (rule zmod_zmult2_eq) simp
  then show ?thesis by simp
qed

lemma big_endian_24:
  assumes "0 \<le> (a::int)" and "a < 16777216"
  shows "(a div 65536 mod 256) * 65536 + (a div 256 mod 256) * 256 + a mod 256 = a"
proof -
  have "a mod 16777216 = a"
    using assms by (rule mod_pos_pos_trivial)
  with low_two_bytes [of a] low_three_bytes [of a] show ?thesis
    by linarith
qed

text \<open>
  C8. For an address below \<open>2^24\<close> the read command is the opcode \<open>0x03\<close> followed by
  the three bytes of the address, most significant first; the page program command is the
  opcode \<open>0x02\<close>, the same three bytes and the page data; the three bytes are the base-256
  digits of the address. Write enable, chip erase and read status are the single bytes
  \<open>0x06\<close>, \<open>0xC7\<close> and \<open>0x05\<close>.
\<close>

theorem command_bytes:
  assumes "0 \<le> a" and "a < 2 ^ 24"
  shows "read_cmd a = [0x03, a div 65536 mod 256, a div 256 mod 256, a mod 256]
    \<and> page_program_cmd a page_data
        = [0x02, a div 65536 mod 256, a div 256 mod 256, a mod 256] @ map uint page_data
    \<and> (a div 65536 mod 256) * 65536 + (a div 256 mod 256) * 256 + a mod 256 = a
    \<and> write_enable_cmd = [0x06] \<and> chip_erase_cmd = [0xC7] \<and> read_status_cmd = [0x05]"
proof -
  have "a < 16777216"
    using assms(2) by simp
  with assms(1) have "(a div 65536 mod 256) * 65536 + (a div 256 mod 256) * 256 + a mod 256 = a"
    by (rule big_endian_24)
  moreover have "read_cmd a = [0x03, a div 65536 mod 256, a div 256 mod 256, a mod 256]"
    using address_bytes [of a] by (simp add: read_cmd_def)
  moreover have "page_program_cmd a page_data
      = [0x02, a div 65536 mod 256, a div 256 mod 256, a mod 256] @ map uint page_data"
    using address_bytes [of a] by (simp add: page_program_cmd_def)
  moreover have "write_enable_cmd = [0x06] \<and> chip_erase_cmd = [0xC7] \<and> read_status_cmd = [0x05]"
    by (simp add: write_enable_cmd_def chip_erase_cmd_def read_status_cmd_def)
  ultimately show ?thesis
    by blast
qed

theorem command_bytes_witness:
  "read_cmd 0x123456 = [0x03, 0x12, 0x34, 0x56]
   \<and> page_program_cmd 0x123456 [0xAA, 0xBB] = [0x02, 0x12, 0x34, 0x56, 0xAA, 0xBB]"
  using command_bytes [of "0x123456" "[0xAA, 0xBB]"] by simp

subsection \<open>Checks before the first transfer\<close>

text \<open>
  C4. When the input file is longer than the flash capacity, \<open>write_spi_flash\<close> returns
  \<open>SizeExceeded\<close>; the log is empty (no configuration and no transfer) and the device is
  untouched.
\<close>

theorem oversize_rejected:
  assumes "int (length file) > flash_size"
  shows "fst (write_spi_flash n T client (Some file) flash_size speed erase_chip verify)
           = Some SizeExceeded
    \<and> log (snd (write_spi_flash n T client (Some file) flash_size speed erase_chip verify)) = []
    \<and> dev (snd (write_spi_flash n T client (Some file) flash_size speed erase_chip verify))
        = client"
  using assms by (simp add: BPIOSPI_def)

theorem oversize_rejected_witness:
  "fst (write_spi_flash 5 blank_flash () (Some [1, 2, 3]) 2 12000000 True True)
      = Some SizeExceeded
   \<and> log (snd (write_spi_flash 5 blank_flash () (Some [1, 2, 3]) 2 12000000 True True)) = []"
  using oversize_rejected [of 2 "[1, 2, 3]" 5 blank_flash "()" 12000000 True True] by simp

text \<open>
  C7. When the transport refuses the configuration, \<open>read_spi_flash\<close> returns
  \<open>ConfigurationFailed\<close> and so does \<open>write_spi_flash\<close>, with or without the erase stage,
  for every file that passes the two checks made before the configuration; the only call
  logged is the refused configuration. Whatever the file, no transfer is logged.
\<close>

theorem configure_refused:
  assumes "\<not> fst (configure T speed client)"
  shows "fst (read_spi_flash T client flash_size speed chunk_size start_time end_time) = ConfigurationFailed
    \<and> log (snd (read_spi_flash T client flash_size speed chunk_size start_time end_time)) = [Configure speed False]
    \<and> (int (length file) \<le> flash_size \<longrightarrow>
         fst (write_spi_flash n T client (Some file) flash_size speed erase_chip verify)
           = Some ConfigurationFailed
         \<and> log (snd (write_spi_flash n T client (Some file) flash_size speed erase_chip verify))
           = [Configure speed False])
    \<and> filter is_transfer
         (log (snd (write_spi_flash n T client src flash_size speed erase_chip verify))) = []"
proof -
  obtain d' where c: "configure T speed client = (False, d')"
    using assms by (cases "configure T speed client") auto
  have r: "fst (read_spi_flash T client flash_size speed chunk_size start_time end_time) = ConfigurationFailed
    \<and> log (snd (read_spi_flash T client flash_size speed chunk_size start_time end_time)) = [Configure speed False]"
    using c by (simp add: spi_configure_def BPIOSPI_def)
  have w: "int (length file) \<le> flash_size \<longrightarrow>
         fst (write_spi_flash n T client (Some file) flash_size speed erase_chip verify)
           = Some ConfigurationFailed
         \<and> log (snd (write_spi_flash n T client (Some file) flash_size speed erase_chip verify))
           = [Configure speed False]"
    using c by (simp add: spi_configure_def BPIOSPI_def)
  have "filter is_transfer
         (log (snd (write_spi_flash n T client src flash_size speed erase_chip verify))) = []"
  proof (cases src)
    case None
    then show ?thesis by (simp add: BPIOSPI_def)
  next
    case (Some data)
    then show ?thesis
      using c by (simp add: spi_configure_def BPIOSPI_def)
  qed
  with r w show ?thesis by blast
qed

theorem configure_refused_witness:
  "fst (read_spi_flash refusing_port () 4096 12000000 512 0 1) = ConfigurationFailed
   \<and> fst (write_spi_flash 5 refusing_port () (Some [1, 2, 3]) 4096 12000000 True True)
       = Some ConfigurationFailed
   \<and> log (snd (write_spi_flash 5 refusing_port () (Some [1, 2, 3]) 4096 12000000 True True))
       = [Configure 12000000 False]"
  using configure_refused [of refusing_port 12000000 "()" 4096 512 0 1 "[1, 2, 3]" 5 True True
      None]
  by (simp add: refusing_port_def blank_flash_def)

subsection \<open>The busy wait\<close>

lemma low_bit_test: "(uint (b::byte) AND 0x01 = 0) = (\<not> bit b 0)"
proof -
  have "(uint b AND 1 = 0) = even (uint b)"
    by (simp add: and_one_eq even_iff_mod_2_eq_zero)
  also have "\<dots> = (\<not> bit (uint b) 0)"
    by (simp add: bit_0)
  also have "\<dots> = (\<not> bit b 0)"
    by (simp add: bit_uint_iff)
  finally show ?thesis .
qed

lemma loop_test_wip_clear:
  "(truthy r \<and> length (the r) = 1 \<and> (uint (the r ! 0)) AND 0x01 = 0) = wip_clear r"
proof (cases r)
  case None
  then show ?thesis by simp
next
  case (Some bs)
  show ?thesis
  proof (cases bs)
    case Nil
    with Some show ?thesis by simp
  next
    case (Cons b cs)
    with Some show ?thesis
      using low_bit_test [of b] by (cases cs) simp_all
  qed
qed

lemma wait_ready_Suc:
  "wait_ready (Suc n) T s =
     (case spi_transfer T read_status_cmd (Some 1) s of
        (a, s1) \<Rightarrow> if wip_clear a then (Some (), s1) else wait_ready n T s1)"
  by (simp only: wait_ready.simps loop_test_wip_clear)

lemma log_spi_transfer:
  "spi_transfer T w n s = (r, s') \<Longrightarrow>
     log s' = log s @ [Transfer w n r] \<and> sink s' = sink s
     \<and> (r, dev s') = transfer T w n (dev s)"
  by (auto simp: spi_transfer_def split: prod.splits)

lemma wait_ready_trace:
  "wait_ready n T s = (r, s') \<Longrightarrow>
     \<exists>polls. log s' = log s @ polls \<and> sink s' = sink s
       \<and> (case r of Some _ \<Rightarrow> waits_until_clear polls
           | None \<Rightarrow> length polls = n \<and> list_all busy_poll polls)"
proof (induction n arbitrary: s)
  case 0
  then show ?case by simp
next
  case (Suc n)
  obtain a s1 where t: "spi_transfer T read_status_cmd (Some 1) s = (a, s1)"
    by (cases "spi_transfer T read_status_cmd (Some 1) s")
  note l = log_spi_transfer [OF t]
  show ?case
  proof (cases "wip_clear a")
    case True
    with Suc.prems t have "r = Some ()" "s' = s1"
      by (simp_all add: wait_ready_Suc del: wait_ready.simps)
    with l True show ?thesis
      by (intro exI [of _ "[Transfer read_status_cmd (Some 1) a]"]) simp
  next
    case False
    with Suc.prems t have "wait_ready n T s1 = (r, s')"
      by (simp add: wait_ready_Suc del: wait_ready.simps)
    from Suc.IH [OF this] obtain polls where p: "log s' = log s1 @ polls" "sink s' = sink s1"
      "(case r of Some _ \<Rightarrow> waits_until_clear polls
           | None \<Rightarrow> length polls = n \<and> list_all busy_poll polls)"
      by blast
    with l False show ?thesis
      by (intro exI [of _ "Transfer read_status_cmd (Some 1) a # polls"])
         (simp add: busy_poll_def split: option.splits)
  qed
qed


lemma waits_until_clear_polls: "waits_until_clear polls \<Longrightarrow> list_all is_status_poll polls"
  by (induction polls) (auto split: if_splits)

lemma busy_polls_polls: "list_all busy_poll polls \<Longrightarrow> list_all is_status_poll polls"
  by (induction polls) (auto simp: busy_poll_def)

text \<open>
  The wait does not fail on an absent answer. On a transport that answers the first status
  read with \<^verbatim>\<open>None\<close> and the second with a zero byte, the wait polls twice and returns.
\<close>

theorem busy_wait_retries_counterexample:
  "wait_ready 2 scripted (BPIOSPI [None, Some [0]])
     = (Some (),
        \<lparr>dev = [],
         log = [Transfer read_status_cmd (Some 1) None,
                Transfer read_status_cmd (Some 1) (Some [0])],
         sink = []\<rparr>)"
  by (simp add: numeral_2_eq_2 spi_transfer_def scripted_def BPIOSPI_def)

text \<open>
  C1, as the code has it. Every call of the busy wait is a read-status command asking for one
  byte. The wait returns after the first answer that is a single byte with the
  write-in-progress bit clear, and after no other: an absent answer, like an answer of
  another length or with the bit set, is followed by the next poll. While the fuel lasts
  the wait has no other way to end; it has no failure result. The second part states the
  step for an absent answer on its own.
\<close>

theorem busy_wait_polls_until_clear:
  "(\<exists>polls. log (snd (wait_ready n T s)) = log s @ polls
      \<and> (case fst (wait_ready n T s) of
            Some _ \<Rightarrow> waits_until_clear polls
          | None \<Rightarrow> length polls = n \<and> list_all busy_poll polls))
   \<and> (fst (spi_transfer T read_status_cmd (Some 1) s) = None \<longrightarrow>
        wait_ready (Suc n) T s = wait_ready n T (snd (spi_transfer T read_status_cmd (Some 1) s)))"
proof
  obtain r s' where w: "wait_ready n T s = (r, s')"
    by (cases "wait_ready n T s")
  from wait_ready_trace [OF w] w
  show "\<exists>polls. log (snd (wait_ready n T s)) = log s @ polls
      \<and> (case fst (wait_ready n T s) of
            Some _ \<Rightarrow> waits_until_clear polls
          | None \<Rightarrow> length polls = n \<and> list_all busy_poll polls)"
    by auto
next
  show "fst (spi_transfer T read_status_cmd (Some 1) s) = None \<longrightarrow>
        wait_ready (Suc n) T s = wait_ready n T (snd (spi_transfer T read_status_cmd (Some 1) s))"
    by (cases "spi_transfer T read_status_cmd (Some 1) s")
       (simp add: wait_ready_Suc del: wait_ready.simps)
qed

theorem busy_wait_polls_until_clear_witness:
  "fst (spi_transfer scripted read_status_cmd (Some 1) (BPIOSPI [None, Some [0]])) = None
   \<and> wait_ready (Suc 1) scripted (BPIOSPI [None, Some [0]])
       = wait_ready 1 scripted
           (snd (spi_transfer scripted read_status_cmd (Some 1) (BPIOSPI [None, Some [0]])))"
  using busy_wait_polls_until_clear [of 1 scripted "BPIOSPI [None, Some [0]]"]
  by (simp add: spi_transfer_def scripted_def BPIOSPI_def)

subsection \<open>Erasing\<close>

lemma erase_flash_trace:
  "erase_flash n T s = (r, s') \<Longrightarrow>
     \<exists>r1 r2 polls. log s' = log s
          @ [Transfer write_enable_cmd None r1, Transfer chip_erase_cmd None r2] @ polls
       \<and> sink s' = sink s
       \<and> (case r of Some ok \<Rightarrow> ok \<and> waits_until_clear polls
           | None \<Rightarrow> length polls = n \<and> list_all busy_poll polls)"
proof -
  assume e: "erase_flash n T s = (r, s')"
  obtain r1 s1 where t1: "spi_transfer T write_enable_cmd None s = (r1, s1)"
    by (cases "spi_transfer T write_enable_cmd None s")
  obtain r2 s2 where t2: "spi_transfer T chip_erase_cmd None s1 = (r2, s2)"
    by (cases "spi_transfer T chip_erase_cmd None s1")
  obtain u s3 where w: "wait_ready n T s2 = (u, s3)"
    by (cases "wait_ready n T s2")
  from e t1 t2 w have rs: "s' = s3" "r = (case u of None \<Rightarrow> None | Some _ \<Rightarrow> Some True)"
    by (auto split: option.splits)
  from wait_ready_trace [OF w] obtain polls where p: "log s3 = log s2 @ polls"
    "sink s3 = sink s2"
    "(case u of Some _ \<Rightarrow> waits_until_clear polls
           | None \<Rightarrow> length polls = n \<and> list_all busy_poll polls)"
    by blast
  from log_spi_transfer [OF t1] log_spi_transfer [OF t2] p rs
  show ?thesis
    by (intro exI [of _ r1] exI [of _ r2] exI [of _ polls]) (simp split: option.splits)
qed

text \<open>
  C9. Whatever the transport answers and however long the run is observed, the calls of
  \<open>erase_flash\<close> start with the write-enable command, directly followed by the chip-erase
  command; all later calls are status polls.
\<close>

theorem erase_sends_enable_then_erase:
  "\<exists>r1 r2 polls. log (snd (erase_flash n T s))
       = log s @ [Transfer write_enable_cmd None r1, Transfer chip_erase_cmd None r2] @ polls
     \<and> list_all is_status_poll polls"
proof -
  obtain r s' where e: "erase_flash n T s = (r, s')"
    by (cases "erase_flash n T s")
  from erase_flash_trace [OF e] obtain r1 r2 polls where
    l: "log s' = log s @ [Transfer write_enable_cmd None r1, Transfer chip_erase_cmd None r2] @ polls"
    and c: "(case r of Some ok \<Rightarrow> ok \<and> waits_until_clear polls
           | None \<Rightarrow> length polls = n \<and> list_all busy_poll polls)"
    by blast
  from c have "list_all is_status_poll polls"
    by (auto split: option.splits dest: waits_until_clear_polls busy_polls_polls)
  with l e show ?thesis
    by auto
qed

theorem erase_sends_enable_then_erase_witness:
  "\<exists>r1 r2 polls. log (snd (erase_flash 3 scripted (BPIOSPI [None, None, Some [1], Some [0]])))
       = [Transfer [0x06] None r1, Transfer [0xC7] None r2] @ polls
     \<and> list_all is_status_poll polls"
  using erase_sends_enable_then_erase [of 3 scripted "BPIOSPI [None, None, Some [1], Some [0]]"]
  by (simp add: BPIOSPI_def write_enable_cmd_def chip_erase_cmd_def)

subsection \<open>Reading\<close>




lemma upt_Suc_shift: "[0..<Suc n] = 0 # map Suc [0..<n]"
  by (simp add: upt_conv_Cons map_Suc_upt del: upt_Suc)







text \<open>
  C2 does not hold of the reader when the flash size is not a multiple of the chunk size:
  the reader asks for a whole chunk at every address. With a flash of 10 bytes read in
  chunks of 4 on a transport on which every transfer succeeds, the third command, at
  address 8, asks for 4 bytes where \<open>min 4 (10 - 8) = 2\<close>, the read reaches past the end of
  the address space, and the output file receives 12 bytes.
\<close>

theorem read_overruns_flash_size:
  "read_spi_flash blank_flash () 10 12000000 4 0 1
     = (Success,
        \<lparr>dev = (),
         log = [Configure 12000000 True,
                Transfer (read_cmd 0) (Some 4) (Some [0, 0, 0, 0]),
                Transfer (read_cmd 4) (Some 4) (Some [0, 0, 0, 0]),
                Transfer (read_cmd 8) (Some 4) (Some [0, 0, 0, 0])],
         sink = [0, 0, 0, 0, 0, 0, 0, 0, 0, 0, 0, 0]\<rparr>)"
  by code_simp

subsection \<open>Writing and verifying\<close>





lemma ceil_div_step:
  assumes "0 < (n::nat)"
  shows "(n + m) div Suc m = Suc ((n - Suc m + m) div Suc m)"
proof (cases "Suc m \<le> n")
  case True
  then have "n + m = (n - Suc m + m) + Suc m"
    by simp
  then have "(n + m) div Suc m = ((n - Suc m + m) + Suc m) div Suc m"
    by (rule arg_cong)
  then show ?thesis
    by (simp only: div_add_self2)
next
  case False
  with assms have "(n + m) div Suc m = 1"
    by (intro div_nat_eqI) simp_all
  with False show ?thesis
    by simp
qed













text \<open>From here on the equations of the stages are unfolded by hand as well.\<close>

declare erase_flash.simps [simp del] write_flash.simps [simp del]
  write_spi_flash.simps [simp del]












subsection \<open>The outcome of a failed verification\<close>

text \<open>
  An absent answer to a verification read is reported as a mismatch. A one-byte file is
  written to a device that answers the status poll with a zero byte and every other
  transfer, the verification read included, with \<^verbatim>\<open>None\<close>.
\<close>

theorem absent_read_reported_as_mismatch_counterexample:
  "write_spi_flash 1 scripted [None, None, Some [0], None] (Some [0x5A]) 4096 12000000 False True
     = (Some (VerificationMismatch 0),
        \<lparr>dev = [],
         log = [Configure 12000000 True,
                Transfer write_enable_cmd None None,
                Transfer (page_program_cmd 0 [0x5A]) None None,
                Transfer read_status_cmd (Some 1) (Some [0]),
                Transfer (read_cmd 0) (Some 1) None],
         sink = []\<rparr>)"
  by code_simp

lemma verify_chunks_step:
  assumes "address < file_size" and "f \<noteq> []"
    and "fst (spi_transfer T (read_cmd address) (Some (int (length (take 512 f)))) s)
          \<noteq> Some (take 512 f)"
  shows "fst (verify_chunks T file_size f address s) = VerificationMismatch address"
proof -
  obtain actual s1 where t: "spi_transfer T (read_cmd address)
        (Some (int (length (take 512 f)))) s = (actual, s1)"
    by (cases "spi_transfer T (read_cmd address) (Some (int (length (take 512 f)))) s")
  with assms show ?thesis
    by (subst verify_chunks.simps) (simp add: Let_def)
qed

lemma verify_mismatch_cause:
  "verify_chunks T file_size f address s = (VerificationMismatch a, s') \<Longrightarrow>
   file_size = address + int (length f) \<Longrightarrow>
     \<exists>evs r. log s' = log s @ evs
         @ [Transfer (read_cmd a)
              (Some (int (length (take 512 (drop (nat (a - address)) f))))) r]
       \<and> r \<noteq> Some (take 512 (drop (nat (a - address)) f))
       \<and> address \<le> a \<and> a < address + int (length f)"
proof (induction T file_size f address s rule: verify_chunks.induct)
  case (1 T file_size f address s)
  show ?case
  proof (cases "f = []")
    case True
    with "1.prems" show ?thesis
      by (simp add: verify_chunks.simps)
  next
    case False
    with "1.prems"(2) have lt: "address < file_size" and ne: "take 512 f \<noteq> []"
      by simp_all
    obtain actual s1 where t: "spi_transfer T (read_cmd address)
        (Some (int (length (take 512 f)))) s = (actual, s1)"
      by (cases "spi_transfer T (read_cmd address) (Some (int (length (take 512 f)))) s")
    note l = log_spi_transfer [OF t]
    show ?thesis
    proof (cases "actual = Some (take 512 f)")
      case wrong: False
      with "1.prems"(1) lt ne t have "a = address" "s' = s1"
        by (subst (asm) verify_chunks.simps, simp add: Let_def)+
      with l wrong False show ?thesis
        by (intro exI [of _ "[]"] exI [of _ actual]) simp
    next
      case True
      with "1.prems"(1) lt ne t have rec: "verify_chunks T file_size (drop 512 f)
          (address + int (length (take 512 f))) s1 = (VerificationMismatch a, s')"
        by (subst (asm) verify_chunks.simps) (simp add: Let_def)
      have eq: "\<not> actual \<noteq> Some (take 512 f)"
        using True by simp
      have size: "file_size = address + int (length (take 512 f)) + int (length (drop 512 f))"
        using "1.prems"(2) by simp
      from "1.IH" [OF lt refl ne t [symmetric] eq rec size]
      obtain evs r where ih:
        "log s' = log s1 @ evs @ [Transfer (read_cmd a)
              (Some (int (length (take 512
                 (drop (nat (a - (address + int (length (take 512 f))))) (drop 512 f)))))) r]"
        "r \<noteq> Some (take 512
                 (drop (nat (a - (address + int (length (take 512 f))))) (drop 512 f)))"
        "address + int (length (take 512 f)) \<le> a"
        "a < address + int (length (take 512 f)) + int (length (drop 512 f))"
        by blast
      from ih(3,4) have big: "512 < length f"
        by (cases "512 < length f") simp_all
      then have full: "int (length (take 512 f)) = 512"
        by simp
      from ih(3) full have pos: "nat (a - address) = nat (a - (address + 512)) + 512"
        by simp
      have same: "drop (nat (a - (address + int (length (take 512 f))))) (drop 512 f)
          = drop (nat (a - address)) f"
        by (simp only: full drop_drop pos)
      note ih' = ih(1,2) [unfolded same]
      from ih'(1) l have
        "log s' = log s @ (Transfer (read_cmd address) (Some (int (length (take 512 f)))) actual
            # evs) @ [Transfer (read_cmd a)
              (Some (int (length (take 512 (drop (nat (a - address)) f))))) r]"
        by simp
      moreover note ih'(2)
      moreover from ih(3,4) have "address \<le> a" "a < address + int (length f)"
        by simp_all
      ultimately show ?thesis
        by blast
    qed
  qed
qed

lemma verify_outcomes:
  "fst (verify_chunks T file_size f address s) = Success
   \<or> (\<exists>a. fst (verify_chunks T file_size f address s) = VerificationMismatch a)"
proof (induction T file_size f address s rule: verify_chunks.induct)
  case (1 T file_size f address s)
  show ?case
  proof (cases "address < file_size \<and> take 512 f \<noteq> []")
    case False
    then show ?thesis
      by (subst verify_chunks.simps) (auto simp: Let_def)
  next
    case True
    then have lt: "address < file_size" and ne: "take 512 f \<noteq> []"
      by simp_all
    obtain actual s1 where t: "spi_transfer T (read_cmd address)
        (Some (int (length (take 512 f)))) s = (actual, s1)"
      by (cases "spi_transfer T (read_cmd address) (Some (int (length (take 512 f)))) s")
    show ?thesis
    proof (cases "actual = Some (take 512 f)")
      case False
      with lt ne t have "fst (verify_chunks T file_size f address s) = VerificationMismatch address"
        by (subst verify_chunks.simps) (simp add: Let_def)
      then show ?thesis
        by blast
    next
      case True
      then have eq: "\<not> actual \<noteq> Some (take 512 f)"
        by simp
      from True lt ne t have "verify_chunks T file_size f address s
          = verify_chunks T file_size (drop 512 f) (address + int (length (take 512 f))) s1"
        by (subst verify_chunks.simps) (simp add: Let_def)
      with "1.IH" [OF lt refl ne t [symmetric] eq] show ?thesis
        by simp
    qed
  qed
qed

lemma verify_success_trace:
  "verify_chunks T file_size f address s = (Success, s') \<Longrightarrow>
   file_size = address + int (length f) \<Longrightarrow>
     log s' = log s @ verify_events address f
       (map (\<lambda>i. Some (take 512 (drop (512 * i) f))) [0..<(length f + 511) div 512])"
proof (induction T file_size f address s rule: verify_chunks.induct)
  case (1 T file_size f address s)
  show ?case
  proof (cases "f = []")
    case True
    with "1.prems" show ?thesis
      by (simp add: verify_chunks.simps)
  next
    case False
    with "1.prems"(2) have lt: "address < file_size" and ne: "take 512 f \<noteq> []"
      by simp_all
    from False have step: "(length f + 511) div 512 = Suc ((length f - 512 + 511) div 512)"
      using ceil_div_step [of "length f" 511] by simp
    obtain actual s1 where t: "spi_transfer T (read_cmd address)
        (Some (int (length (take 512 f)))) s = (actual, s1)"
      by (cases "spi_transfer T (read_cmd address) (Some (int (length (take 512 f)))) s")
    note l = log_spi_transfer [OF t]
    have match: "actual = Some (take 512 f)"
    proof (rule ccontr)
      assume "actual \<noteq> Some (take 512 f)"
      with "1.prems"(1) lt ne t show False
        by (subst (asm) verify_chunks.simps) (simp add: Let_def)
    qed
    with "1.prems"(1) lt ne t have rec: "verify_chunks T file_size (drop 512 f)
        (address + int (length (take 512 f))) s1 = (Success, s')"
      by (subst (asm) verify_chunks.simps) (simp add: Let_def)
    have eq: "\<not> actual \<noteq> Some (take 512 f)"
      using match by simp
    have size: "file_size = address + int (length (take 512 f)) + int (length (drop 512 f))"
      using "1.prems"(2) by simp
    have shift: "map (\<lambda>i. Some (take 512 (drop (512 * i) (drop 512 f))))
          [0..<(length (drop 512 f) + 511) div 512]
        = map ((\<lambda>i. Some (take 512 (drop (512 * i) f))) \<circ> Suc)
          [0..<(length f - 512 + 511) div 512]"
      by (simp add: o_def add.commute)
    from "1.IH" [OF lt refl ne t [symmetric] eq rec size]
    have "log s' = log s1 @ verify_events (address + int (length (take 512 f))) (drop 512 f)
       (map ((\<lambda>i. Some (take 512 (drop (512 * i) f))) \<circ> Suc)
          [0..<(length f - 512 + 511) div 512])"
      by (simp only: shift)
    with l match show ?thesis
      by (simp add: step upt_Suc_shift del: upt_Suc)
  qed
qed

text \<open>
  C3, as the code has it. In a verification pass an answer that is not equal to the chunk of
  the file at the address read, be it absent or be it present with other bytes, ends the
  pass with the outcome \<open>VerificationMismatch\<close> at that address: an absent answer and
  differing bytes have the same outcome. That outcome at an address is returned only when
  the last call of the pass is the read at that address and its answer is not equal to the
  chunk of the file there. The pass ends with \<open>Success\<close> only when every chunk of the file
  was read and answered with the bytes of that chunk. A pass has no other outcome; in
  particular it never ends with \<open>TransportError\<close>.
\<close>

theorem verification_failure_cause:
  "(address < file_size \<and> f \<noteq> []
      \<and> fst (spi_transfer T (read_cmd address) (Some (int (length (take 512 f)))) s)
          \<noteq> Some (take 512 f)
     \<longrightarrow> fst (verify_chunks T file_size f address s) = VerificationMismatch address)
   \<and> (fst (verify_chunks T (address + int (length f)) f address s) = VerificationMismatch a
     \<longrightarrow> (\<exists>evs r. log (snd (verify_chunks T (address + int (length f)) f address s))
            = log s @ evs
              @ [Transfer (read_cmd a)
                   (Some (int (length (take 512 (drop (nat (a - address)) f))))) r]
          \<and> r \<noteq> Some (take 512 (drop (nat (a - address)) f))
          \<and> address \<le> a \<and> a < address + int (length f)))
   \<and> (fst (verify_chunks T (address + int (length f)) f address s) = Success
     \<longrightarrow> log (snd (verify_chunks T (address + int (length f)) f address s))
          = log s @ verify_events address f
              (map (\<lambda>i. Some (take 512 (drop (512 * i) f))) [0..<(length f + 511) div 512]))
   \<and> (fst (verify_chunks T file_size f address s) = Success
       \<or> (\<exists>a. fst (verify_chunks T file_size f address s) = VerificationMismatch a))"
proof (intro conjI impI)
  assume "address < file_size \<and> f \<noteq> []
      \<and> fst (spi_transfer T (read_cmd address) (Some (int (length (take 512 f)))) s)
          \<noteq> Some (take 512 f)"
  then show "fst (verify_chunks T file_size f address s) = VerificationMismatch address"
    by (intro verify_chunks_step) simp_all
next
  assume m: "fst (verify_chunks T (address + int (length f)) f address s)
      = VerificationMismatch a"
  obtain s' where "verify_chunks T (address + int (length f)) f address s
      = (VerificationMismatch a, s')"
    using m by (cases "verify_chunks T (address + int (length f)) f address s") simp
  from verify_mismatch_cause [OF this refl] this
  show "\<exists>evs r. log (snd (verify_chunks T (address + int (length f)) f address s))
            = log s @ evs
              @ [Transfer (read_cmd a)
                   (Some (int (length (take 512 (drop (nat (a - address)) f))))) r]
          \<and> r \<noteq> Some (take 512 (drop (nat (a - address)) f))
          \<and> address \<le> a \<and> a < address + int (length f)"
    by simp
next
  assume ok: "fst (verify_chunks T (address + int (length f)) f address s) = Success"
  obtain s' where "verify_chunks T (address + int (length f)) f address s = (Success, s')"
    using ok by (cases "verify_chunks T (address + int (length f)) f address s") simp
  from verify_success_trace [OF this refl] this
  show "log (snd (verify_chunks T (address + int (length f)) f address s))
          = log s @ verify_events address f
              (map (\<lambda>i. Some (take 512 (drop (512 * i) f))) [0..<(length f + 511) div 512])"
    by simp
next
  show "fst (verify_chunks T file_size f address s) = Success
       \<or> (\<exists>a. fst (verify_chunks T file_size f address s) = VerificationMismatch a)"
    by (rule verify_outcomes)
qed

theorem verification_failure_cause_witness:
  "fst (spi_transfer scripted (read_cmd 0) (Some (int (length (take 512 [0x5A::byte]))))
         (BPIOSPI [None])) = None
   \<and> fst (verify_chunks scripted 1 [0x5A] 0 (BPIOSPI [None])) = VerificationMismatch 0
   \<and> fst (spi_transfer scripted (read_cmd 0) (Some (int (length (take 512 [0x5A::byte]))))
         (BPIOSPI [Some [0x00]])) = Some [0x00]
   \<and> fst (verify_chunks scripted 1 [0x5A] 0 (BPIOSPI [Some [0x00]])) = VerificationMismatch 0"
  using verification_failure_cause [of 0 1 "[0x5A]" scripted "BPIOSPI [None]"]
    verification_failure_cause [of 0 1 "[0x5A]" scripted "BPIOSPI [Some [0x00]]"]
  by (simp add: spi_transfer_def scripted_def BPIOSPI_def)

end
